theory Spec2Isabelle
  imports Complex_Main "HOL-Library.Multiset"
begin

section \<open>Display data of the GPU profiler analysers\<close>

text \<open>
  The two analysers, \<^verbatim>\<open>gpu_bar_analyzer.py\<close> (class \<^verbatim>\<open>AcademicGPUBarAnalyzer\<close>) and
  \<^verbatim>\<open>gpu_profiler_analyzer.py\<close> (class \<^verbatim>\<open>AcademicGPUAnalyzer\<close>), share
  \<^verbatim>\<open>create_dataframe\<close>, \<^verbatim>\<open>get_academic_colors\<close> and \<^verbatim>\<open>prepare_display_data\<close> line for line;
  they differ in the chart method that consumes the prepared data. One embedding of the
  shared methods serves both.

  Modelling decisions.
  \<^item> Python floats are exact rationals (\<^typ>\<open>rat\<close>): no rounding error, no overflow, no NaN.
    \<^verbatim>\<open>round(x, 1)\<close> is rounding to one decimal, halves to the even neighbour.
  \<^item> Every \<^verbatim>\<open>raise\<close> of the source, and every exception a builtin throws, is a value of
    \<open>error\<close>; a function that can raise returns \<open>error + 'a\<close>. A division by zero is
    the error \<open>Division_by_zero\<close>, as it is for Python floats; where the operands are numpy
    scalars Python gives \<^verbatim>\<open>nan\<close> or \<^verbatim>\<open>inf\<close> under a suppressed warning instead, and in
    neither case are there values that sum to anything.
  \<^item> The pandas frame \<^verbatim>\<open>self.df\<close> is a list of rows. \<^verbatim>\<open>sort_values\<close> is a stable sort
    here; the order pandas gives to rows of equal percentage is not fixed by the source.
  \<^item> A directive is the dictionary of the configuration file read through \<^verbatim>\<open>item.get\<close>:
    a missing key is \<open>None\<close> (or the default the source passes to \<^verbatim>\<open>get\<close>); a key
    present with a JSON \<^verbatim>\<open>null\<close> is not distinguished from a missing one.
  \<^item> The \<^verbatim>\<open>print\<close> calls are omitted, the set of unused kernels they report is kept.
\<close>

subsection \<open>Errors and numbers\<close>

datatype error =
    Missing_kernel_statistics  \<comment> \<open>\<^verbatim>\<open>ValueError\<close>, key \<^verbatim>\<open>kernel_statistics\<close> absent\<close>
  | No_kernel_statistics       \<comment> \<open>\<^verbatim>\<open>ValueError\<close>, empty kernel list\<close>
  | Division_by_zero           \<comment> \<open>\<^verbatim>\<open>ZeroDivisionError\<close> of \<^verbatim>\<open>size * 100.0 / total\<close>\<close>
  | Max_empty_sequence         \<comment> \<open>\<^verbatim>\<open>ValueError\<close> of \<^verbatim>\<open>max([])\<close>\<close>
  | Value_not_in_list          \<comment> \<open>\<^verbatim>\<open>ValueError\<close> of \<^verbatim>\<open>list.index\<close>\<close>
  | Index_error                \<comment> \<open>\<^verbatim>\<open>IndexError\<close> of a list subscript\<close>

definition round_half_even :: "rat \<Rightarrow> int" where
  "round_half_even x =
     (let f = \<lfloor>x\<rfloor>; d = x - of_int f
      in if d < 1 / 2 then f
         else if 1 / 2 < d then f + 1
         else if even f then f else f + 1)"

definition round1 :: "rat \<Rightarrow> rat" where
  \<comment> \<open>\<^verbatim>\<open>round(x, 1)\<close>\<close>
  "round1 x = of_int (round_half_even (x * 10)) / 10"

fun py_max :: "rat list \<Rightarrow> error + rat" where
  \<comment> \<open>\<^verbatim>\<open>max(xs)\<close>: the first greatest element, \<^verbatim>\<open>ValueError\<close> on the empty list\<close>
  "py_max [] = Inl Max_empty_sequence"
| "py_max (x # xs) = Inr (fold (\<lambda>y m. if m < y then y else m) xs x)"

fun py_index :: "rat list \<Rightarrow> rat \<Rightarrow> error + nat" where
  \<comment> \<open>\<^verbatim>\<open>xs.index(v)\<close>: the first position of \<open>v\<close>, \<^verbatim>\<open>ValueError\<close> when absent\<close>
  "py_index [] v = Inl Value_not_in_list"
| "py_index (x # xs) v =
     (if x = v then Inr 0
      else case py_index xs v of Inl e \<Rightarrow> Inl e | Inr i \<Rightarrow> Inr (Suc i))"

fun str_nat :: "nat \<Rightarrow> string" where
  \<comment> \<open>the decimal digits an f-string prints for a non-negative \<^verbatim>\<open>int\<close>\<close>
  "str_nat n =
     (if n < 10 then [''0123456789'' ! n]
      else str_nat (n div 10) @ [''0123456789'' ! (n mod 10)])"

declare str_nat.simps [simp del]

subsection \<open>The data frame\<close>

record kernel_stat =
  name :: string
  percentage :: rat

record row = kernel_stat +
  display_name :: string

definition get_default_kernel_mapping :: "(string \<times> string) list" where
  "get_default_kernel_mapping =
     [(''SolveXPBDHydrostatic'', ''Hydrostatic Solver''),
      (''SolveXPBDDeviatoric'', ''Deviatoric Solver''),
      (''UpdateSurfaceMesh'', ''Surface Update''),
      (''UpdateStressVisualization'', ''Stress Visualization''),
      (''PredictPositions'', ''Position Prediction''),
      (''CollideSDF'', ''SDF Collision''),
      (''CollideSDF_PreStep'', ''SDF Pre-Step''),
      (''CollideParticles'', ''Particle Collision''),
      (''SolveAttachment'', ''Attachment Solver''),
      (''ApplyDeltas'', ''Delta Application''),
      (''XPBDFinalize'', ''XPBD Finalization''),
      (''UpdateMotionConstraints'', ''Motion Constraints''),
      (''SolveConstraints'', ''Constraint Solving''),
      (''ComputeAverageResidual'', ''Residual Computation''),
      (''SolveStableNeoHookean'', ''Neo-Hookean Solver''),
      (''UpdateSpatialHash'', ''Spatial Hashing''),
      (''NormalizeSurfaceNormals'', ''Normal Computation''),
      (''UpdateSurfaceNormals'', ''Surface Normals''),
      (''UpdateSurfaceVertices'', ''Surface Vertices'')]"

definition sort_desc :: "('a \<Rightarrow> rat) \<Rightarrow> 'a list \<Rightarrow> 'a list" where
  \<comment> \<open>\<^verbatim>\<open>xs.sort(key=f, reverse=True)\<close>: reverse, sort stably upwards, reverse again\<close>
  "sort_desc f xs = rev (sort_key f (rev xs))"

definition create_dataframe ::
    "(string \<times> string) list \<Rightarrow> kernel_stat list option \<Rightarrow> error + row list" where
  \<comment> \<open>the argument is \<^verbatim>\<open>self.data.get('kernel_statistics')\<close>\<close>
  "create_dataframe kernel_name_mapping data =
     (case data of
        None \<Rightarrow> Inl Missing_kernel_statistics
      | Some kernel_stats \<Rightarrow>
          if kernel_stats = [] then Inl No_kernel_statistics
          else
            let df = map (\<lambda>k. \<lparr>name = name k, percentage = percentage k,
                      display_name = (case map_of kernel_name_mapping (name k) of
                                        Some d \<Rightarrow> d | None \<Rightarrow> name k)\<rparr>) kernel_stats
            in Inr (sort_desc percentage df))"

subsection \<open>Colours\<close>

datatype color =
    Color_str string  \<comment> \<open>a colour given as a string, such as \<^verbatim>\<open>'#4E79A7'\<close>\<close>
  | Tab20 rat         \<comment> \<open>\<^verbatim>\<open>plt.get_cmap('tab20')(x)\<close>, the 20-colour map sampled at \<open>x\<close>\<close>

definition palette :: "color list" where
  "palette = map Color_str
     [''#4E79A7'', ''#F28E2B'', ''#E15759'',
      ''#76B7B2'', ''#59A14F'', ''#EDC948'',
      ''#B07AA1'', ''#FF9DA7'', ''#9C755F'', ''#BAB0AC'']"

definition get_academic_colors :: "nat \<Rightarrow> color list" where
  "get_academic_colors n_colors =
     (if n_colors \<le> length palette then take n_colors palette
      else map (\<lambda>i. Tab20 (of_nat i / of_nat n_colors)) [0..<n_colors])"

subsection \<open>Directives and the state of the selection loop\<close>

record display_item =
  item_type :: "string option"          \<comment> \<open>\<^verbatim>\<open>item.get("type")\<close>\<close>
  kernel :: "string option"             \<comment> \<open>\<^verbatim>\<open>item.get("kernel")\<close>\<close>
  kernels :: "string list"              \<comment> \<open>\<^verbatim>\<open>item.get("kernels", [])\<close>\<close>
  item_display_name :: "string option"  \<comment> \<open>\<^verbatim>\<open>item.get("display_name")\<close>\<close>
  item_color :: "color option"          \<comment> \<open>\<^verbatim>\<open>item.get("color")\<close>\<close>
  include_remaining :: bool             \<comment> \<open>\<^verbatim>\<open>item.get("include_remaining", False)\<close>\<close>

record display_state =
  labels :: "string list"
  sizes :: "rat list"
  colors :: "color option list"
  used_kernels :: "string set"

definition init_state :: display_state where
  "init_state = \<lparr>labels = [], sizes = [], colors = [], used_kernels = {}\<rparr>"

definition lookup_kernel :: "row list \<Rightarrow> string \<Rightarrow> row option" where
  \<comment> \<open>\<^verbatim>\<open>self.df[self.df['name'] == kernel_name].iloc[0]\<close>, \<open>None\<close> exactly when
      \<^verbatim>\<open>kernel_name in self.df['name'].values\<close> is false\<close>
  "lookup_kernel df kernel_name = find (\<lambda>r. name r = kernel_name) df"

fun merged_loop ::
    "row list \<Rightarrow> string list \<Rightarrow> rat \<times> string list \<times> string set
       \<Rightarrow> rat \<times> string list \<times> string set" where
  \<comment> \<open>the inner loop of a merged item over
      \<open>(total_percentage, found_kernels, used_kernels)\<close>\<close>
  "merged_loop df [] acc = acc"
| "merged_loop df (kernel_name # rest) (total_percentage, found_kernels, used) =
     (case lookup_kernel df kernel_name of
        Some kernel_data \<Rightarrow>
          merged_loop df rest
            (total_percentage + percentage kernel_data,
             found_kernels @ [kernel_name],
             insert kernel_name used)
      | None \<Rightarrow> merged_loop df rest (total_percentage, found_kernels, used))"

definition remaining_kernels :: "row list \<Rightarrow> string set \<Rightarrow> row list" where
  \<comment> \<open>\<^verbatim>\<open>self.df[~self.df['name'].isin(used_kernels)]\<close>\<close>
  "remaining_kernels df used = filter (\<lambda>r. name r \<notin> used) df"

definition process_item :: "row list \<Rightarrow> display_item \<Rightarrow> display_state \<Rightarrow> display_state" where
  \<comment> \<open>one pass of the body of \<^verbatim>\<open>for i, item in enumerate(display_items)\<close>\<close>
  "process_item df item st =
     (if item_type item = Some ''individual'' then
        (case kernel item of
           None \<Rightarrow> st
         | Some kernel_name \<Rightarrow>
            (case lookup_kernel df kernel_name of
               Some kernel_data \<Rightarrow>
                 st\<lparr>labels := labels st @
                       [case item_display_name item of
                          None \<Rightarrow> display_name kernel_data | Some d \<Rightarrow> d],
                    sizes := sizes st @ [percentage kernel_data],
                    colors := colors st @ [item_color item],
                    used_kernels := insert kernel_name (used_kernels st)\<rparr>
             | None \<Rightarrow> st))
      else if item_type item = Some ''merged'' then
        (case merged_loop df (kernels item) (0, [], used_kernels st) of
           (total_percentage, found_kernels, used) \<Rightarrow>
             if found_kernels \<noteq> [] then
               st\<lparr>labels := labels st @
                     [case item_display_name item of
                        None \<Rightarrow> ''Merged ('' @ str_nat (length found_kernels) @ '')''
                      | Some d \<Rightarrow> d],
                  sizes := sizes st @ [total_percentage],
                  colors := colors st @ [item_color item],
                  used_kernels := used\<rparr>
             else st\<lparr>used_kernels := used\<rparr>)
      else if item_type item = Some ''others'' then
        (if include_remaining item then
           (let remaining = remaining_kernels df (used_kernels st) in
            if length remaining > 0 then
              st\<lparr>labels := labels st @
                    [case item_display_name item of
                       None \<Rightarrow> ''Others ('' @ str_nat (length remaining) @ '')''
                     | Some d \<Rightarrow> d],
                 sizes := sizes st @ [sum_list (map percentage remaining)],
                 colors := colors st @ [item_color item]\<rparr>
            else st)
         else st)
      else st)"

definition process_items :: "row list \<Rightarrow> display_item list \<Rightarrow> display_state" where
  \<comment> \<open>the whole loop, from the four empty accumulators\<close>
  "process_items df display_items = fold (process_item df) display_items init_state"

definition unused_kernels :: "row list \<Rightarrow> display_state \<Rightarrow> row list" where
  \<comment> \<open>the rows the loop's epilogue reports under ``Unused kernels found''\<close>
  "unused_kernels df st = filter (\<lambda>r. name r \<notin> used_kernels st) df"

subsection \<open>Colour filling and normalisation\<close>

fun fill_colors :: "color list \<Rightarrow> nat \<Rightarrow> color option list \<Rightarrow> error + color option list" where
  \<comment> \<open>\<^verbatim>\<open>for i in range(len(colors)): if colors[i] is None: colors[i] = base_colors[i]\<close>,
      from position \<open>i\<close> on\<close>
  "fill_colors base_colors i [] = Inr []"
| "fill_colors base_colors i (c # cs) =
     (case c of
        Some col \<Rightarrow>
          (case fill_colors base_colors (Suc i) cs of
             Inl e \<Rightarrow> Inl e | Inr cs' \<Rightarrow> Inr (Some col # cs'))
      | None \<Rightarrow>
          if i < length base_colors then
            (case fill_colors base_colors (Suc i) cs of
               Inl e \<Rightarrow> Inl e | Inr cs' \<Rightarrow> Inr (Some (base_colors ! i) # cs'))
          else Inl Index_error)"

definition resolve_colors :: "display_state \<Rightarrow> error + color option list" where
  \<comment> \<open>\<^verbatim>\<open>base_colors = self.get_academic_colors(len(labels))\<close> and the filling loop\<close>
  "resolve_colors st = fill_colors (get_academic_colors (length (labels st))) 0 (colors st)"

fun rescale :: "rat \<Rightarrow> rat list \<Rightarrow> error + rat list" where
  \<comment> \<open>\<^verbatim>\<open>[size * 100.0 / total for size in sizes]\<close>; \<open>tot\<close> and \<open>sz\<close> stand for
      \<^verbatim>\<open>total\<close> and \<^verbatim>\<open>size\<close>, which are constants of HOL\<close>
  "rescale tot [] = Inr []"
| "rescale tot (sz # rest) =
     (if tot = 0 then Inl Division_by_zero
      else case rescale tot rest of
             Inl e \<Rightarrow> Inl e
           | Inr ys \<Rightarrow> Inr (sz * 100 / tot # ys))"

definition normalize :: "rat list \<Rightarrow> error + rat list" where
  \<comment> \<open>the block under \<^verbatim>\<open>total = sum(sizes)\<close>; the result is the final \<^verbatim>\<open>sizes\<close>\<close>
  "normalize szs =
     (let total = sum_list szs in
      if \<bar>total - 100\<bar> > 1 / 100 then
        (case rescale total szs of
           Inl e \<Rightarrow> Inl e
         | Inr normalized_sizes \<Rightarrow>
             let rounded_sizes = map round1 normalized_sizes;
                 rounded_total = sum_list rounded_sizes
             in if \<bar>rounded_total - 100\<bar> > 5 / 100 then
                  (let difference = 100 - rounded_total in
                   case py_max szs of
                     Inl e \<Rightarrow> Inl e
                   | Inr m \<Rightarrow>
                      (case py_index szs m of
                         Inl e \<Rightarrow> Inl e
                       | Inr max_index \<Rightarrow>
                           if max_index < length rounded_sizes then
                             Inr (rounded_sizes
                                    [max_index := round1 (rounded_sizes ! max_index + difference)])
                           else Inl Index_error))
                else Inr rounded_sizes)
      else Inr szs)"

definition rounded_sizes :: "rat list \<Rightarrow> rat list" where
  \<comment> \<open>the list \<^verbatim>\<open>rounded_sizes\<close> of the source before any correction, for a total
      that is not zero: every size rescaled by \<open>100 / total\<close>, then rounded\<close>
  "rounded_sizes szs = map (\<lambda>sz. round1 (sz * 100 / sum_list szs)) szs"

subsection \<open>\<^verbatim>\<open>prepare_display_data\<close> and the two chart methods\<close>

definition default_display :: "row list \<Rightarrow> string list \<times> rat list \<times> color option list" where
  \<comment> \<open>the branch \<^verbatim>\<open>if not display_items\<close>, which returns at once\<close>
  "default_display df =
     (let top_kernels = take 8 df;
          labels0 = map display_name top_kernels;
          sizes0 = map percentage top_kernels;
          (labels1, sizes1) =
            (if length df > 8
             then (labels0 @ [''Others ('' @ str_nat (length df - 8) @ '')''],
                   sizes0 @ [sum_list (map percentage (drop 8 df))])
             else (labels0, sizes0))
      in (labels1, sizes1, map Some (get_academic_colors (length labels1))))"

definition prepare_display_data ::
    "row list \<Rightarrow> display_item list \<Rightarrow> error + string list \<times> rat list \<times> color option list" where
  "prepare_display_data df display_items =
     (if display_items = [] then Inr (default_display df)
      else
        let st = process_items df display_items in
        case resolve_colors st of
          Inl e \<Rightarrow> Inl e
        | Inr colors' \<Rightarrow>
           (case normalize (sizes st) of
              Inl e \<Rightarrow> Inl e
            | Inr sizes' \<Rightarrow> Inr (labels st, sizes', colors')))"

datatype chart =
    No_data  \<comment> \<open>``No data to display'' is printed and the method returns\<close>
  | Drawn "(string \<times> rat \<times> color option) list"
      \<comment> \<open>the labels, sizes and colours the plotting calls receive, position by position\<close>

definition final_colors :: "string list \<Rightarrow> color option list \<Rightarrow> color option list" where
  \<comment> \<open>the colour scheme block of both chart methods\<close>
  "final_colors lbls custom_colors =
     (if custom_colors \<noteq> [] \<and> list_all (\<lambda>c. c \<noteq> None) custom_colors then custom_colors
      else
        let base_colors = get_academic_colors (length lbls)
        in map (\<lambda>i. if i < length custom_colors \<and> custom_colors ! i \<noteq> None
                     then custom_colors ! i else Some (base_colors ! i))
             [0..<length lbls])"

definition create_academic_bar_chart :: "row list \<Rightarrow> display_item list \<Rightarrow> error + chart" where
  "create_academic_bar_chart df display_items =
     (case prepare_display_data df display_items of
        Inl e \<Rightarrow> Inl e
      | Inr (lbls, szs, custom_colors) \<Rightarrow>
          if lbls = [] then Inr No_data
          else
            let combined_data = zip lbls (zip szs (final_colors lbls custom_colors))
            in Inr (Drawn (sort_desc (\<lambda>x. fst (snd x)) combined_data)))"

definition create_academic_pie_chart :: "row list \<Rightarrow> display_item list \<Rightarrow> error + chart" where
  "create_academic_pie_chart df display_items =
     (case prepare_display_data df display_items of
        Inl e \<Rightarrow> Inl e
      | Inr (lbls, szs, custom_colors) \<Rightarrow>
          if lbls = [] then Inr No_data
          else Inr (Drawn (zip lbls (zip szs (final_colors lbls custom_colors)))))"

subsection \<open>Inputs for the worked examples\<close>

definition row_of :: "string \<Rightarrow> rat \<Rightarrow> row" where
  \<comment> \<open>a row of the frame for a kernel that the name mapping does not rename\<close>
  "row_of n p = \<lparr>name = n, percentage = p, display_name = n\<rparr>"

definition individual :: "string \<Rightarrow> display_item" where
  \<comment> \<open>\<^verbatim>\<open>{"type": "individual", "kernel": k}\<close>\<close>
  "individual k = \<lparr>item_type = Some ''individual'', kernel = Some k, kernels = [],
     item_display_name = None, item_color = None, include_remaining = False\<rparr>"

definition merged :: "string list \<Rightarrow> display_item" where
  \<comment> \<open>\<^verbatim>\<open>{"type": "merged", "kernels": ks}\<close>\<close>
  "merged ks = \<lparr>item_type = Some ''merged'', kernel = None, kernels = ks,
     item_display_name = None, item_color = None, include_remaining = False\<rparr>"

definition others :: display_item where
  \<comment> \<open>\<^verbatim>\<open>{"type": "others", "include_remaining": true}\<close>\<close>
  "others = \<lparr>item_type = Some ''others'', kernel = None, kernels = [],
     item_display_name = None, item_color = None, include_remaining = True\<rparr>"

definition ten_rows :: "row list" where
  \<comment> \<open>a frame of ten kernels, sorted by percentage, greatest first\<close>
  "ten_rows =
     [row_of ''K0'' 30, row_of ''K1'' 20, row_of ''K2'' 10, row_of ''K3'' 9, row_of ''K4'' 8,
      row_of ''K5'' 7, row_of ''K6'' 6, row_of ''K7'' 5, row_of ''K8'' 3, row_of ''K9'' 2]"

lemmas fixtures = row_of_def individual_def merged_def others_def

lemmas run_defs = process_items_def process_item_def init_state_def lookup_kernel_def
  remaining_kernels_def unused_kernels_def

section \<open>Rounding, rescaling and the greatest element\<close>

lemma round_half_even_of_int: "round_half_even (of_int n) = n"
  by (simp add: round_half_even_def)

lemma round1_tenth: "round1 (of_int n / 10) = of_int n / 10"
  by (simp add: round1_def round_half_even_of_int)

lemma sum_list_round1: "\<exists>z. sum_list (map round1 xs) = of_int z / 10"
proof (induction xs)
  case Nil
  have "sum_list (map round1 []) = of_int 0 / 10" by simp
  then show ?case by blast
next
  case (Cons x xs)
  then obtain z where z: "sum_list (map round1 xs) = of_int z / 10" by blast
  have "sum_list (map round1 (x # xs)) = of_int (round_half_even (x * 10) + z) / 10"
    by (simp add: z round1_def add_divide_distrib)
  then show ?case by blast
qed

lemma round1_is_tenth: "\<exists>z. round1 x = of_int z / 10"
  by (auto simp: round1_def)

lemma rescale_nonzero: "tot \<noteq> 0 \<Longrightarrow> rescale tot xs = Inr (map (\<lambda>s. s * 100 / tot) xs)"
  by (induction xs) auto

lemma rescale_zero: "xs \<noteq> [] \<Longrightarrow> rescale 0 xs = Inl Division_by_zero"
  by (cases xs) auto

lemma fold_max_eq: "fold (\<lambda>y m. if m < y then y else m) xs (x::rat) = Max (set (x # xs))"
proof -
  have "(\<lambda>y m. if m < y then y else m) = (max :: rat \<Rightarrow> rat \<Rightarrow> rat)"
    by (intro ext) (simp add: max_def)
  then show ?thesis
    by (simp only: Max.set_eq_fold)
qed

lemma py_max_nonempty: "xs \<noteq> [] \<Longrightarrow> py_max xs = Inr (Max (set xs))"
  by (cases xs) (auto simp: fold_max_eq)

lemma py_index_found:
  "v \<in> set xs \<Longrightarrow> \<exists>k. py_index xs v = Inr k \<and> k < length xs \<and> xs ! k = v \<and> (\<forall>j<k. xs ! j \<noteq> v)"
proof (induction xs)
  case Nil
  then show ?case by simp
next
  case (Cons x xs)
  show ?case
  proof (cases "x = v")
    case True
    then show ?thesis by simp
  next
    case False
    with Cons obtain k where k: "py_index xs v = Inr k" "k < length xs" "xs ! k = v" "\<forall>j<k. xs ! j \<noteq> v"
      by auto
    have "\<forall>j<Suc k. (x # xs) ! j \<noteq> v"
      using False k(4) by (auto simp: nth_Cons split: nat.splits)
    then show ?thesis using False k by auto
  qed
qed

lemma normalize_rescaled:
  assumes "sum_list szs \<noteq> 0" "\<bar>sum_list szs - 100\<bar> > 1 / 100"
  shows "normalize szs =
     (if \<bar>sum_list (rounded_sizes szs) - 100\<bar> > 5 / 100 then
        (case py_index szs (Max (set szs)) of
           Inl e \<Rightarrow> Inl e
         | Inr k \<Rightarrow>
             Inr ((rounded_sizes szs)
                    [k := round1 (rounded_sizes szs ! k + (100 - sum_list (rounded_sizes szs)))]))
      else Inr (rounded_sizes szs))"
proof -
  have ne: "szs \<noteq> []" using assms(1) by auto
  have mx: "Max (set szs) \<in> set szs" using ne by (intro Max_in) auto
  obtain k where k: "py_index szs (Max (set szs)) = Inr k" "k < length szs"
    using py_index_found[OF mx] by blast
  show ?thesis
    using assms k
    by (simp add: normalize_def rescale_nonzero py_max_nonempty[OF ne] Let_def comp_def
        rounded_sizes_def)
qed

lemma normalize_kept: "\<bar>sum_list szs - 100\<bar> \<le> 1 / 100 \<Longrightarrow> normalize szs = Inr szs"
  by (simp add: normalize_def)

lemma sum_list_update_rat:
  "k < length xs \<Longrightarrow> sum_list (xs[k := x]) = sum_list xs + x - (xs ! k :: rat)"
proof (induction xs arbitrary: k)
  case Nil
  then show ?case by simp
next
  case (Cons a xs)
  then show ?case by (cases k) auto
qed

lemma corrected_sum:
  assumes "k < length szs"
  defines "rounded \<equiv> rounded_sizes szs"
  shows "sum_list (rounded[k := round1 (rounded ! k + (100 - sum_list rounded))]) = 100"
proof -
  obtain z where z: "sum_list rounded = of_int z / 10"
    using sum_list_round1[of "map (\<lambda>s. s * 100 / sum_list szs) szs"]
    by (auto simp: rounded_def rounded_sizes_def comp_def)
  obtain y where y: "rounded ! k = of_int y / 10"
    using round1_is_tenth assms(1) by (auto simp: rounded_def rounded_sizes_def)
  have "rounded ! k + (100 - sum_list rounded) = of_int (y + 1000 - z) / 10"
    by (simp add: y z field_simps)
  then have r: "round1 (rounded ! k + (100 - sum_list rounded)) = rounded ! k + (100 - sum_list rounded)"
    by (simp only: round1_tenth)
  have len: "k < length rounded" using assms(1) by (simp add: rounded_def rounded_sizes_def)
  show ?thesis
    by (simp add: sum_list_update_rat[OF len] r)
qed


lemma round_half_even_near:
  assumes "\<bar>x - of_int n\<bar> < 1 / 2"
  shows "round_half_even x = n"
proof (cases "of_int n \<le> x")
  case True
  then have "\<lfloor>x\<rfloor> = n" using assms by (intro floor_unique) auto
  then show ?thesis using assms True by (simp add: round_half_even_def)
next
  case False
  then have "\<lfloor>x\<rfloor> = n - 1" using assms by (intro floor_unique) auto
  then show ?thesis using assms False by (simp add: round_half_even_def)
qed

lemma round1_near: "\<bar>x * 10 - of_int n\<bar> < 1 / 2 \<Longrightarrow> round1 x = of_int n / 10"
  by (simp add: round1_def round_half_even_near)


lemma round1_third: "round1 (100 / 3) = 333 / 10"
  using round1_near[of "100 / 3" 333] by simp

lemma round1_kept: "round1 (167 / 5) = 167 / 5"
  using round1_near[of "167 / 5" 334] by simp

lemma rounded_sizes_tens: "rounded_sizes [10, 10, 10] = [333 / 10, 333 / 10, 333 / 10]"
  by (simp add: rounded_sizes_def round1_third)

lemma py_index_tens: "py_index [10, 10, 10] 10 = Inr 0"
  by simp

lemma normalize_tens: "normalize [10, 10, 10] = Inr [167 / 5, 333 / 10, 333 / 10]"
proof -
  have a: "\<bar>sum_list [10, 10, 10 :: rat] - 100\<bar> > 1 / 100" "sum_list [10, 10, 10 :: rat] \<noteq> 0"
    by simp_all
  have b: "\<bar>sum_list (rounded_sizes [10, 10, 10]) - 100\<bar> > 5 / 100"
    by (simp add: rounded_sizes_tens)
  have c: "Max (set [10, 10, 10 :: rat]) = 10" by simp
  show ?thesis
    unfolding normalize_rescaled[OF a(2) a(1)] c py_index_tens rounded_sizes_tens
    using b by (simp add: rounded_sizes_tens round1_kept)
qed

subsection \<open>The descending stable sort\<close>

lemma sort_desc_sorted: "sorted_wrt (\<lambda>a b. f b \<le> f a) (sort_desc f xs)"
proof -
  have "sorted (map f (sort_key f (rev xs)))" by simp
  then have "sorted_wrt (\<lambda>a b. f a \<le> f b) (sort_key f (rev xs))"
    by (simp add: sorted_wrt_map)
  then show ?thesis
    by (simp add: sort_desc_def sorted_wrt_rev)
qed

lemma sort_desc_stable: "filter (\<lambda>x. f x = v) (sort_desc f xs) = filter (\<lambda>x. f x = v) xs"
proof -
  have "filter (\<lambda>x. f x = v) (sort_desc f xs) = rev (filter (\<lambda>x. f x = v) (sort_key f (rev xs)))"
    by (simp add: sort_desc_def rev_filter)
  also have "\<dots> = rev (filter (\<lambda>x. f x = v) (rev xs))"
    by (simp only: sort_key_stable)
  also have "\<dots> = filter (\<lambda>x. f x = v) xs"
    by (simp add: rev_filter)
  finally show ?thesis .
qed

lemma sort_desc_mset: "mset (sort_desc f xs) = mset xs"
  by (simp add: sort_desc_def)

lemma create_dataframe_sorted:
  "create_dataframe m d = Inr df \<Longrightarrow> sorted_wrt (\<lambda>a b. percentage b \<le> percentage a) df"
  by (auto simp: create_dataframe_def Let_def sort_desc_sorted split: option.splits if_splits)

lemma sort_desc_length: "length (sort_desc f xs) = length xs"
  by (simp add: sort_desc_def)

lemma create_dataframe_nonempty:
  assumes "create_dataframe m d = Inr df"
  shows "df \<noteq> []"
proof -
  from assms obtain ks where ks: "d = Some ks" "ks \<noteq> []"
    by (auto simp: create_dataframe_def split: option.splits if_splits)
  with assms have "length df = length ks"
    by (auto simp: create_dataframe_def Let_def sort_desc_length)
  with ks(2) show ?thesis by auto
qed

subsection \<open>The selection loop\<close>

lemma lookup_kernel_None: "lookup_kernel df k = None \<longleftrightarrow> k \<notin> name ` set df"
  by (auto simp: lookup_kernel_def find_None_iff)

lemma lookup_kernel_Some: "lookup_kernel df k = Some r \<Longrightarrow> r \<in> set df \<and> name r = k"
  by (auto simp: lookup_kernel_def find_Some_iff)

lemma merged_loop_eq:
  "merged_loop df ks (t, f, u) =
     (t + sum_list (map percentage (List.map_filter (lookup_kernel df) ks)),
      f @ filter (\<lambda>k. lookup_kernel df k \<noteq> None) ks,
      u \<union> set (filter (\<lambda>k. lookup_kernel df k \<noteq> None) ks))"
proof (induction ks arbitrary: t f u)
  case Nil
  then show ?case by (simp add: List.map_filter_simps)
next
  case (Cons k ks)
  then show ?case
    by (cases "lookup_kernel df k") (auto simp: List.map_filter_simps add.assoc)
qed

lemma process_item_lengths:
  assumes "length (sizes st) = length (labels st)" and "length (colors st) = length (labels st)"
  shows "length (sizes (process_item df it st)) = length (labels (process_item df it st)) \<and>
         length (colors (process_item df it st)) = length (labels (process_item df it st))"
  using assms
  by (auto simp: process_item_def Let_def split: option.splits prod.splits)

lemma fold_process_item_lengths:
  assumes "length (sizes st) = length (labels st)" and "length (colors st) = length (labels st)"
  shows "length (sizes (fold (process_item df) its st)) = length (labels (fold (process_item df) its st)) \<and>
         length (colors (fold (process_item df) its st)) = length (labels (fold (process_item df) its st))"
  using assms
proof (induction its arbitrary: st)
  case Nil
  then show ?case by simp
next
  case (Cons it its)
  have "length (sizes (process_item df it st)) = length (labels (process_item df it st))"
    "length (colors (process_item df it st)) = length (labels (process_item df it st))"
    using process_item_lengths[OF Cons.prems] by simp_all
  from Cons.IH[OF this] show ?case by simp
qed

lemma process_items_lengths:
  "length (sizes (process_items df its)) = length (labels (process_items df its))"
  "length (colors (process_items df its)) = length (labels (process_items df its))"
  using fold_process_item_lengths[of init_state df its]
  by (simp_all add: process_items_def init_state_def)

subsection \<open>Colours\<close>

lemma length_get_academic_colors: "length (get_academic_colors n) = n"
  by (simp add: get_academic_colors_def)

lemma nth_get_academic_colors:
  "i < n \<Longrightarrow> get_academic_colors n ! i =
     (if n \<le> 10 then palette ! i else Tab20 (of_nat i / of_nat n))"
  by (simp add: get_academic_colors_def palette_def)

lemma fill_colors_total:
  "i + length cs \<le> length base \<Longrightarrow>
   \<exists>out. fill_colors base i cs = Inr out \<and> length out = length cs \<and>
     (\<forall>j<length cs. out ! j = Some (case cs ! j of Some col \<Rightarrow> col | None \<Rightarrow> base ! (i + j)))"
proof (induction cs arbitrary: i)
  case Nil
  then show ?case by simp
next
  case (Cons c cs)
  then have "Suc i + length cs \<le> length base" by simp
  from Cons.IH[OF this] obtain out where out: "fill_colors base (Suc i) cs = Inr out"
    "length out = length cs"
    "\<forall>j<length cs. out ! j = Some (case cs ! j of Some col \<Rightarrow> col | None \<Rightarrow> base ! (Suc i + j))"
    by blast
  have i: "i < length base" using Cons.prems by simp
  let ?h = "Some (case c of Some col \<Rightarrow> col | None \<Rightarrow> base ! i)"
  have eq: "fill_colors base i (c # cs) = Inr (?h # out)"
    using out(1) i by (cases c) simp_all
  have "\<forall>j<length (c # cs). (?h # out) ! j =
      Some (case (c # cs) ! j of Some col \<Rightarrow> col | None \<Rightarrow> base ! (i + j))"
  proof (intro allI impI)
    fix j assume "j < length (c # cs)"
    then show "(?h # out) ! j = Some (case (c # cs) ! j of Some col \<Rightarrow> col | None \<Rightarrow> base ! (i + j))"
      using out(3) by (cases j) (auto split: option.splits)
  qed
  with eq out(2) show ?case by simp
qed

subsection \<open>Colour resolution never fails; a selection without slots does\<close>

lemma resolve_colors_ok:
  "\<exists>out. resolve_colors (process_items df its) = Inr out \<and>
     length out = length (labels (process_items df its)) \<and>
     (\<forall>i<length out. out ! i =
        Some (case colors (process_items df its) ! i of
                Some c \<Rightarrow> c
              | None \<Rightarrow> if length out \<le> 10 then palette ! i
                        else Tab20 (of_nat i / of_nat (length out))))"
proof -
  let ?st = "process_items df its"
  let ?n = "length (labels ?st)"
  have len: "length (colors ?st) = ?n" by (rule process_items_lengths)
  then have "0 + length (colors ?st) \<le> length (get_academic_colors ?n)"
    by (simp add: length_get_academic_colors)
  from fill_colors_total[OF this] obtain out where out:
    "fill_colors (get_academic_colors ?n) 0 (colors ?st) = Inr out"
    "length out = length (colors ?st)"
    "\<forall>j<length (colors ?st). out ! j =
        Some (case colors ?st ! j of Some col \<Rightarrow> col | None \<Rightarrow> get_academic_colors ?n ! (0 + j))"
    by blast
  have "\<forall>i<length out. out ! i =
        Some (case colors ?st ! i of
                Some c \<Rightarrow> c
              | None \<Rightarrow> if length out \<le> 10 then palette ! i
                        else Tab20 (of_nat i / of_nat (length out)))"
  proof (intro allI impI)
    fix i assume i: "i < length out"
    then have "i < ?n" using out(2) len by simp
    then have "get_academic_colors ?n ! i =
        (if ?n \<le> 10 then palette ! i else Tab20 (of_nat i / of_nat ?n))"
      by (rule nth_get_academic_colors)
    moreover have "length out = ?n" using out(2) len by simp
    ultimately show "out ! i =
        Some (case colors ?st ! i of
                Some c \<Rightarrow> c
              | None \<Rightarrow> if length out \<le> 10 then palette ! i
                        else Tab20 (of_nat i / of_nat (length out)))"
      using out(3) i out(2) by (auto split: option.splits)
  qed
  with out(1,2) len show ?thesis
    by (auto simp: resolve_colors_def)
qed

lemma normalize_Nil: "normalize [] = Inl Max_empty_sequence"
  by (simp add: normalize_def)

lemma empty_selection_raises:
  assumes "its \<noteq> []" and "labels (process_items df its) = []"
  shows "prepare_display_data df its = Inl Max_empty_sequence"
proof -
  obtain out where "resolve_colors (process_items df its) = Inr out"
    using resolve_colors_ok by blast
  moreover have "sizes (process_items df its) = []"
    using process_items_lengths(1)[of df its] assms(2) by simp
  ultimately show ?thesis
    using assms(1) by (simp add: prepare_display_data_def normalize_Nil)
qed

lemma prepared_labels:
  assumes "its \<noteq> []" and "prepare_display_data df its = Inr (ls, ss, cs)"
  shows "ls = labels (process_items df its)"
  using assms by (auto simp: prepare_display_data_def Let_def split: sum.splits)

lemma default_labels_nonempty:
  "df \<noteq> [] \<Longrightarrow> fst (default_display df) \<noteq> []"
  by (cases df) (auto simp: default_display_def Let_def)

lemma no_data_unreachable_bar:
  assumes "df \<noteq> []"
  shows "create_academic_bar_chart df its \<noteq> Inr No_data"
proof (cases "its = []")
  case True
  obtain ls ss cs where d: "default_display df = (ls, ss, cs)" by (cases "default_display df")
  with default_labels_nonempty[OF assms] have "ls \<noteq> []" by simp
  with True d show ?thesis
    by (simp add: create_academic_bar_chart_def prepare_display_data_def)
next
  case False
  show ?thesis
  proof (cases "prepare_display_data df its")
    case (Inl e)
    then show ?thesis by (simp add: create_academic_bar_chart_def)
  next
    case (Inr r)
    obtain ls ss cs where r: "r = (ls, ss, cs)" by (cases r)
    have "ls \<noteq> []"
    proof
      assume "ls = []"
      then have "labels (process_items df its) = []"
        using prepared_labels[OF False] Inr r by simp
      from empty_selection_raises[OF False this] Inr show False by simp
    qed
    with Inr r show ?thesis by (simp add: create_academic_bar_chart_def)
  qed
qed

subsection \<open>Worked examples\<close>

lemmas prepare_defs = prepare_display_data_def resolve_colors_def get_academic_colors_def
  palette_def default_display_def

lemma prepared_tens_default:
  "prepare_display_data [row_of ''A'' 10, row_of ''B'' 10, row_of ''C'' 10] [] =
     Inr ([''A'', ''B'', ''C''], [10, 10, 10], map Some (take 3 palette))"
  by (simp add: fixtures prepare_defs)

lemma processed_tens:
  "process_items [row_of ''A'' 10, row_of ''B'' 10, row_of ''C'' 10]
     [individual ''A'', individual ''B'', individual ''C''] =
   \<lparr>labels = [''A'', ''B'', ''C''], sizes = [10, 10, 10], colors = [None, None, None],
    used_kernels = {''A'', ''B'', ''C''}\<rparr>"
  by (simp add: fixtures run_defs insert_commute)

lemma prepared_tens_directives:
  "prepare_display_data [row_of ''A'' 10, row_of ''B'' 10, row_of ''C'' 10]
     [individual ''A'', individual ''B'', individual ''C''] =
     Inr ([''A'', ''B'', ''C''], [167 / 5, 333 / 10, 333 / 10], map Some (take 3 palette))"
  by (simp add: prepare_display_data_def Let_def processed_tens normalize_tens
      resolve_colors_def get_academic_colors_def palette_def)

lemma processed_ties:
  "process_items [row_of ''A'' 40, row_of ''B'' 30, row_of ''C'' 30]
     [individual ''C'', individual ''A'', individual ''B''] =
   \<lparr>labels = [''C'', ''A'', ''B''], sizes = [30, 40, 30], colors = [None, None, None],
    used_kernels = {''A'', ''B'', ''C''}\<rparr>"
  by (simp add: fixtures run_defs insert_commute)

lemma prepared_ties:
  "prepare_display_data [row_of ''A'' 40, row_of ''B'' 30, row_of ''C'' 30]
     [individual ''C'', individual ''A'', individual ''B''] =
   Inr ([''C'', ''A'', ''B''], [30, 40, 30], map Some (take 3 palette))"
  by (simp add: prepare_display_data_def Let_def processed_ties normalize_def
      resolve_colors_def get_academic_colors_def palette_def)

lemma drop_8_of_10: "length xs = 10 \<Longrightarrow> drop 8 xs = [xs ! 8, xs ! 9]"
  by (rule nth_equalityI) (auto simp: nth_Cons' less_Suc_eq numeral_eq_Suc)

lemma default_display_eq:
  "default_display df =
     (map display_name (take 8 df) @
        (if 8 < length df then [''Others ('' @ str_nat (length df - 8) @ '')''] else []),
      map percentage (take 8 df) @
        (if 8 < length df then [sum_list (map percentage (drop 8 df))] else []),
      map Some (get_academic_colors (min (length df) 8 + (if 8 < length df then 1 else 0))))"
  by (simp add: default_display_def Let_def)

lemma sorted_take_drop:
  assumes "sorted_wrt (\<lambda>a b. percentage b \<le> percentage a) df"
  shows "\<forall>r\<in>set (drop n df). \<forall>t\<in>set (take n df). percentage r \<le> percentage t"
proof -
  have "sorted_wrt (\<lambda>a b. percentage b \<le> percentage a) (take n df @ drop n df)"
    using assms by simp
  then show ?thesis
    unfolding sorted_wrt_append by blast
qed

lemma prepared_ten_rows:
  "prepare_display_data ten_rows [] =
     Inr ([''K0'', ''K1'', ''K2'', ''K3'', ''K4'', ''K5'', ''K6'', ''K7'', ''Others (2)''],
          [30, 20, 10, 9, 8, 7, 6, 5, 5],
          map Some (take 9 palette))"
  by (simp add: prepare_display_data_def default_display_eq ten_rows_def row_of_def
      str_nat.simps get_academic_colors_def palette_def)

subsection \<open>Lookups of the selection loop\<close>

lemma found_rows_names:
  "map name (List.map_filter (lookup_kernel df) ks) = filter (\<lambda>k. k \<in> name ` set df) ks"
proof (induction ks)
  case Nil
  then show ?case by (simp add: List.map_filter_simps)
next
  case (Cons k ks)
  show ?case
  proof (cases "lookup_kernel df k")
    case None
    then have "k \<notin> name ` set df" by (simp add: lookup_kernel_None)
    with None Cons show ?thesis by (simp add: List.map_filter_simps)
  next
    case (Some r)
    then have "name r = k" "k \<in> name ` set df"
      using lookup_kernel_Some[OF Some] by auto
    with Some Cons show ?thesis by (simp add: List.map_filter_simps)
  qed
qed

lemma found_filter: "filter (\<lambda>k. lookup_kernel df k \<noteq> None) ks = filter (\<lambda>k. k \<in> name ` set df) ks"
  by (simp add: lookup_kernel_None)

lemma merged_loop_found:
  "merged_loop df ks (t, f, u) =
     (t + sum_list (map percentage (List.map_filter (lookup_kernel df) ks)),
      f @ filter (\<lambda>k. k \<in> name ` set df) ks,
      u \<union> set (filter (\<lambda>k. k \<in> name ` set df) ks))"
  by (simp only: merged_loop_eq found_filter)

lemma process_item_individual_miss:
  assumes "item_type it = Some ''individual''" and "\<forall>k. kernel it = Some k \<longrightarrow> k \<notin> name ` set df"
  shows "process_item df it st = st"
proof (cases "kernel it")
  case None
  with assms(1) show ?thesis by (simp add: process_item_def)
next
  case (Some k)
  with assms(2) have "lookup_kernel df k = None" by (simp add: lookup_kernel_None)
  with Some assms(1) show ?thesis by (simp add: process_item_def)
qed

lemma process_item_merged:
  assumes "item_type it = Some ''merged''"
  shows "process_item df it st =
     (if filter (\<lambda>k. k \<in> name ` set df) (kernels it) = [] then st
      else st\<lparr>labels := labels st @
                 [case item_display_name it of
                    None \<Rightarrow> ''Merged ('' @
                       str_nat (length (filter (\<lambda>k. k \<in> name ` set df) (kernels it))) @ '')''
                  | Some d \<Rightarrow> d],
               sizes := sizes st @
                 [sum_list (map percentage (List.map_filter (lookup_kernel df) (kernels it)))],
               colors := colors st @ [item_color it],
               used_kernels := used_kernels st \<union>
                 set (filter (\<lambda>k. k \<in> name ` set df) (kernels it))\<rparr>)"
proof -
  define found where "found = filter (\<lambda>k. k \<in> name ` set df) (kernels it)"
  define total_percentage where
    "total_percentage = sum_list (map percentage (List.map_filter (lookup_kernel df) (kernels it)))"
  have ml: "merged_loop df (kernels it) (0, [], used_kernels st) =
      (total_percentage, found, used_kernels st \<union> set found)"
    unfolding merged_loop_found found_def total_percentage_def by simp
  have "process_item df it st =
     (if found = [] then st
      else st\<lparr>labels := labels st @
                 [case item_display_name it of
                    None \<Rightarrow> ''Merged ('' @ str_nat (length found) @ '')''
                  | Some d \<Rightarrow> d],
               sizes := sizes st @ [total_percentage],
               colors := colors st @ [item_color it],
               used_kernels := used_kernels st \<union> set found\<rparr>)"
    using assms by (cases "found = []") (simp_all add: process_item_def ml)
  then show ?thesis
    unfolding found_def total_percentage_def .
qed

lemma processed_colored:
  "process_items [row_of ''A'' 60, row_of ''B'' 40]
     [(individual ''A'')\<lparr>item_color := Some (Color_str ''#000000'')\<rparr>, individual ''B''] =
   \<lparr>labels = [''A'', ''B''], sizes = [60, 40], colors = [Some (Color_str ''#000000''), None],
    used_kernels = {''A'', ''B''}\<rparr>"
  by (simp add: fixtures run_defs insert_commute)

section \<open>Normalisation\<close>

text \<open>
  Claim C10. The rescaling \<^verbatim>\<open>size * 100.0 / total\<close> has no guard against a zero total:
  on every non-empty list of sizes that are all \<open>0\<close> (percentages lie in \<open>[0, 100]\<close>, so
  such a list is a valid input) the total is \<open>0\<close>, which is farther than \<open>0.01\<close> from
  \<open>100\<close>, the rescaling is entered and its first division is by zero. In the embedding
  the result of normalisation is the error \<open>Division_by_zero\<close>.
\<close>

theorem normalize_zero_total:
  assumes "szs \<noteq> []" and "\<forall>x\<in>set szs. x = 0"
  shows "normalize szs = Inl Division_by_zero"
proof -
  have "sum_list szs = 0" using assms(2) by (induction szs) auto
  then show ?thesis using assms(1)
    by (simp add: normalize_def rescale_zero)
qed

theorem normalize_zero_total_witness:
  "[0, 0 :: rat] \<noteq> [] \<and> normalize [0, 0] = Inl Division_by_zero"
  using normalize_zero_total[of "[0, 0]"] by simp

text \<open>
  Claim C5, as amended. The claim promises a sum of \<open>100.0\<close> within \<open>0.05\<close> for every
  non-empty list of sizes; a list whose total is \<open>0\<close> has no such normalisation (the
  counterexample below). For every non-empty list of sizes whose total is not \<open>0\<close>,
  normalisation returns values that sum to \<open>100\<close> within \<open>0.05\<close>: the sizes themselves
  when their total is within \<open>0.01\<close> of \<open>100\<close>; otherwise every size rescaled by
  \<open>100 / total\<close> and rounded to one decimal, kept when the rounded total is within
  \<open>0.05\<close> of \<open>100\<close> and corrected to a total of exactly \<open>100\<close> when it is not.
\<close>

theorem normalize_total_100:
  assumes "szs \<noteq> []" and "sum_list szs \<noteq> 0"
  shows "\<exists>out. normalize szs = Inr out \<and> length out = length szs \<and>
           \<bar>sum_list out - 100\<bar> \<le> 5 / 100 \<and>
           (if \<bar>sum_list szs - 100\<bar> \<le> 1 / 100 then out = szs
            else if \<bar>sum_list (rounded_sizes szs) - 100\<bar> \<le> 5 / 100
                 then out = rounded_sizes szs
                 else sum_list out = 100)"
proof (cases "\<bar>sum_list szs - 100\<bar> \<le> 1 / 100")
  case True
  then show ?thesis by (simp add: normalize_kept)
next
  case far: False
  then have far': "\<bar>sum_list szs - 100\<bar> > 1 / 100" by simp
  note unfolded = normalize_rescaled[OF assms(2) far']
  show ?thesis
  proof (cases "\<bar>sum_list (rounded_sizes szs) - 100\<bar> \<le> 5 / 100")
    case True
    then show ?thesis using far unfolded by (simp add: rounded_sizes_def)
  next
    case False
    have "Max (set szs) \<in> set szs" using assms(1) by (intro Max_in) auto
    then obtain k where k: "py_index szs (Max (set szs)) = Inr k" "k < length szs"
      using py_index_found by blast
    show ?thesis
      using far False unfolded k corrected_sum[OF k(2)]
      by (simp add: rounded_sizes_def)
  qed
qed

theorem normalize_total_100_witness:
  "[10, 10, 10 :: rat] \<noteq> [] \<and> sum_list [10, 10, 10 :: rat] \<noteq> 0 \<and>
   normalize [10, 10, 10] = Inr [167 / 5, 333 / 10, 333 / 10] \<and>
   \<bar>sum_list [167 / 5, 333 / 10, 333 / 10 :: rat] - 100\<bar> \<le> 5 / 100"
proof -
  have h1: "[10, 10, 10 :: rat] \<noteq> []" by simp
  have h2: "sum_list [10, 10, 10 :: rat] \<noteq> 0" by simp
  from normalize_total_100[OF h1 h2]
  obtain out where o: "normalize [10, 10, 10] = Inr out" "\<bar>sum_list out - 100\<bar> \<le> 5 / 100"
    by blast
  from o(1) have "out = [167 / 5, 333 / 10, 333 / 10]"
    by (simp add: normalize_tens)
  with o(2) h1 h2 show ?thesis
    by (simp only: normalize_tens) simp
qed

text \<open>
  The counterexample to C5 as stated: the frame holds one kernel \<open>A\<close> with percentage
  \<open>0\<close> and the configuration displays it individually. Directive processing produces the
  non-empty size list \<open>[0]\<close>, and normalisation of that list is a division by zero, not a
  list of values that sums to \<open>100\<close>.
\<close>

theorem normalize_zero_slot_counterexample:
  "sizes (process_items [row_of ''A'' 0] [individual ''A'']) = [0] \<and>
   normalize (sizes (process_items [row_of ''A'' 0] [individual ''A''])) = Inl Division_by_zero"
proof -
  have s: "sizes (process_items [row_of ''A'' 0] [individual ''A'']) = [0]"
    by (simp add: fixtures run_defs)
  have "normalize [0] = Inl Division_by_zero"
    by (simp add: normalize_def)
  with s show ?thesis by simp
qed

text \<open>
  Claim C6. When the sizes were rescaled and the total of the rounded values is farther than
  \<open>0.05\<close> from \<open>100\<close>, the difference \<open>100 - rounded_total\<close> is added to exactly one
  position \<open>k\<close>: the first position that holds the greatest of the original (not yet
  rescaled, not yet rounded) sizes. That value is rounded to one decimal again, and every
  other position keeps its rounded value.
\<close>

theorem correction_on_first_maximum:
  assumes "sum_list szs \<noteq> 0" and "\<bar>sum_list szs - 100\<bar> > 1 / 100"
    and "\<bar>sum_list (rounded_sizes szs) - 100\<bar> > 5 / 100"
  shows "\<exists>k<length szs.
           szs ! k = Max (set szs) \<and> (\<forall>j<k. szs ! j < szs ! k) \<and>
           normalize szs =
             Inr ((rounded_sizes szs)
                    [k := round1 (rounded_sizes szs ! k + (100 - sum_list (rounded_sizes szs)))]) \<and>
           (\<forall>out i. normalize szs = Inr out \<longrightarrow> i < length szs \<longrightarrow> i \<noteq> k \<longrightarrow>
                    out ! i = rounded_sizes szs ! i)"
proof -
  have ne: "szs \<noteq> []" using assms(1) by auto
  have mx: "Max (set szs) \<in> set szs" using ne by (intro Max_in) auto
  obtain k where k: "py_index szs (Max (set szs)) = Inr k" "k < length szs"
      "szs ! k = Max (set szs)" "\<forall>j<k. szs ! j \<noteq> Max (set szs)"
    using py_index_found[OF mx] by blast
  have below: "\<forall>j<k. szs ! j < szs ! k"
  proof (intro allI impI)
    fix j assume j: "j < k"
    then have "szs ! j \<in> set szs" using k(2) by simp
    then have "szs ! j \<le> Max (set szs)" by simp
    moreover have "szs ! j \<noteq> Max (set szs)" using k(4) j by blast
    ultimately show "szs ! j < szs ! k" using k(3) by simp
  qed
  have eq: "normalize szs =
      Inr ((rounded_sizes szs)
             [k := round1 (rounded_sizes szs ! k + (100 - sum_list (rounded_sizes szs)))])"
    using normalize_rescaled[OF assms(1,2)] assms(3) k(1) by simp
  show ?thesis
    using k(2,3) below eq by (intro exI[of _ k]) simp
qed

theorem correction_on_first_maximum_witness:
  "sum_list [10, 10, 10 :: rat] \<noteq> 0 \<and> \<bar>sum_list [10, 10, 10 :: rat] - 100\<bar> > 1 / 100 \<and>
   \<bar>sum_list (rounded_sizes [10, 10, 10]) - 100\<bar> > 5 / 100 \<and>
   normalize [10, 10, 10] = Inr ([333 / 10, 333 / 10, 333 / 10][0 := 167 / 5])"
proof -
  have h1: "sum_list [10, 10, 10 :: rat] \<noteq> 0" by simp
  have h2: "\<bar>sum_list [10, 10, 10 :: rat] - 100\<bar> > 1 / 100" by simp
  have h3: "\<bar>sum_list (rounded_sizes [10, 10, 10]) - 100\<bar> > 5 / 100"
    by (simp add: rounded_sizes_tens)
  from correction_on_first_maximum[OF h1 h2 h3]
  obtain k where k: "k < length [10, 10, 10 :: rat]"
    "\<forall>j<k. [10, 10, 10 :: rat] ! j < [10, 10, 10] ! k"
    "normalize [10, 10, 10] =
       Inr ((rounded_sizes [10, 10, 10])
         [k := round1 (rounded_sizes [10, 10, 10] ! k + (100 - sum_list (rounded_sizes [10, 10, 10])))])"
    by blast
  have "k = 0"
  proof (rule ccontr)
    assume "k \<noteq> 0"
    then have "[10, 10, 10 :: rat] ! 0 < [10, 10, 10] ! k" using k(2) by blast
    moreover have "[10, 10, 10 :: rat] ! k = 10" using k(1) by (auto simp: nth_Cons')
    ultimately show False by simp
  qed
  then have "normalize [10, 10, 10] = Inr ([333 / 10, 333 / 10, 333 / 10][0 := 167 / 5])"
    using k(3) by (simp add: rounded_sizes_tens round1_kept)
  with h1 h2 h3 show ?thesis by blast
qed

section \<open>Selection\<close>

text \<open>
  Claim C1 says that the values handed to the renderer sum to \<open>100.0\<close> within \<open>0.05\<close> on
  the path without directives as well, with three records \<open>A = 10\<close>, \<open>B = 10\<close>,
  \<open>C = 10\<close> rescaled to \<open>33.4, 33.3, 33.3\<close>. The code returns from the branch
  \<^verbatim>\<open>if not display_items\<close> before the normalisation block is reached: without directives
  these records are handed on as \<open>10, 10, 10\<close>, whose sum is \<open>30\<close>. The same three kernels
  displayed through three individual directives are normalised to a sum of \<open>100\<close>.
\<close>

theorem default_path_not_normalized:
  "prepare_display_data [row_of ''A'' 10, row_of ''B'' 10, row_of ''C'' 10] [] =
     Inr ([''A'', ''B'', ''C''], [10, 10, 10], map Some (take 3 palette)) \<and>
   sum_list [10, 10, 10 :: rat] = 30 \<and>
   prepare_display_data [row_of ''A'' 10, row_of ''B'' 10, row_of ''C'' 10]
     [individual ''A'', individual ''B'', individual ''C''] =
     Inr ([''A'', ''B'', ''C''], [167 / 5, 333 / 10, 333 / 10], map Some (take 3 palette)) \<and>
   sum_list [167 / 5, 333 / 10, 333 / 10 :: rat] = 100"
  by (simp add: prepared_tens_default prepared_tens_directives)

text \<open>
  Claim C2 says that an others directive marks every kernel of its remaining set as consumed.
  The others branch of the loop never touches \<^verbatim>\<open>used_kernels\<close> (the individual and the
  merged branch do): after one others directive over the kernels \<open>A\<close> and \<open>B\<close> the slot
  ``Others (2)'' is emitted, the set of used kernels is still empty, both kernels are reported
  as unused, and a second others directive emits the same two kernels again.
\<close>

theorem others_leaves_kernels_unused:
  "labels (process_items [row_of ''A'' 60, row_of ''B'' 40] [others]) = [''Others (2)''] \<and>
   used_kernels (process_items [row_of ''A'' 60, row_of ''B'' 40] [others]) = {} \<and>
   map name (unused_kernels [row_of ''A'' 60, row_of ''B'' 40]
              (process_items [row_of ''A'' 60, row_of ''B'' 40] [others])) = [''A'', ''B''] \<and>
   labels (process_items [row_of ''A'' 60, row_of ''B'' 40] [others, others])
     = [''Others (2)'', ''Others (2)''] \<and>
   sizes (process_items [row_of ''A'' 60, row_of ''B'' 40] [others, others]) = [100, 100]"
  by (simp add: fixtures run_defs str_nat.simps)

text \<open>
  Claim C3 says that a selection without slots ends in the report ``No data to display'' and
  that no other exception is raised before it. The check \<^verbatim>\<open>if not labels\<close> of both chart
  methods comes after \<^verbatim>\<open>prepare_display_data\<close>, whose normalisation block takes
  \<^verbatim>\<open>max(sizes)\<close> of the empty list: a single individual directive for a kernel that the
  frame does not hold selects no slot, and both chart methods end in that \<^verbatim>\<open>ValueError\<close>.
  (Lemma \<open>empty_selection_raises\<close> shows this for every selection without slots and lemma
  \<open>no_data_unreachable_bar\<close> that the report is never reached from a non-empty frame.)
\<close>

theorem no_slots_raises_value_error:
  "labels (process_items [row_of ''A'' 50] [individual ''B'']) = [] \<and>
   create_academic_bar_chart [row_of ''A'' 50] [individual ''B''] = Inl Max_empty_sequence \<and>
   create_academic_pie_chart [row_of ''A'' 50] [individual ''B''] = Inl Max_empty_sequence"
  by (simp add: fixtures run_defs prepare_display_data_def resolve_colors_def normalize_def
      create_academic_bar_chart_def create_academic_pie_chart_def)

section \<open>Rendering order\<close>

text \<open>
  Claim C4, as amended. Given prepared data with at least one slot, the pie chart method hands
  the slots to the plotting calls in emission order, without sorting them; the bar chart
  method hands over the same slots (the same multiset) sorted by value, greatest first, with
  slots of equal value in their emission order (for every value \<open>v\<close> the slots of value
  \<open>v\<close> appear in the same order before and after the sort). The values are the ones
  \<^verbatim>\<open>prepare_display_data\<close> returns, that is, after normalisation.
\<close>

theorem bar_sorted_pie_in_emission_order:
  assumes "prepare_display_data df its = Inr (lbls, szs, cols)" and "lbls \<noteq> []"
  shows "create_academic_pie_chart df its =
           Inr (Drawn (zip lbls (zip szs (final_colors lbls cols)))) \<and>
         (\<exists>slots. create_academic_bar_chart df its = Inr (Drawn slots) \<and>
            sorted_wrt (\<lambda>a b. fst (snd b) \<le> fst (snd a)) slots \<and>
            mset slots = mset (zip lbls (zip szs (final_colors lbls cols))) \<and>
            (\<forall>v. filter (\<lambda>x. fst (snd x) = v) slots =
                 filter (\<lambda>x. fst (snd x) = v) (zip lbls (zip szs (final_colors lbls cols)))))"
proof -
  let ?emitted = "zip lbls (zip szs (final_colors lbls cols))"
  have pie: "create_academic_pie_chart df its = Inr (Drawn ?emitted)"
    using assms by (simp add: create_academic_pie_chart_def)
  have bar: "create_academic_bar_chart df its = Inr (Drawn (sort_desc (\<lambda>x. fst (snd x)) ?emitted))"
    using assms by (simp add: create_academic_bar_chart_def)
  show ?thesis
    using pie bar sort_desc_sorted[of "\<lambda>x. fst (snd x)" ?emitted]
      sort_desc_mset[of "\<lambda>x. fst (snd x)" ?emitted]
      sort_desc_stable[of "\<lambda>x. fst (snd x)" _ ?emitted]
    by simp
qed

theorem bar_sorted_pie_in_emission_order_witness:
  "prepare_display_data [row_of ''A'' 40, row_of ''B'' 30, row_of ''C'' 30]
     [individual ''C'', individual ''A'', individual ''B''] =
     Inr ([''C'', ''A'', ''B''], [30, 40, 30], map Some (take 3 palette)) \<and>
   [''C'', ''A'', ''B''] \<noteq> [] \<and>
   create_academic_pie_chart [row_of ''A'' 40, row_of ''B'' 30, row_of ''C'' 30]
     [individual ''C'', individual ''A'', individual ''B''] =
     Inr (Drawn [(''C'', 30, Some (palette ! 0)), (''A'', 40, Some (palette ! 1)),
                 (''B'', 30, Some (palette ! 2))]) \<and>
   create_academic_bar_chart [row_of ''A'' 40, row_of ''B'' 30, row_of ''C'' 30]
     [individual ''C'', individual ''A'', individual ''B''] =
     Inr (Drawn [(''A'', 40, Some (palette ! 1)), (''C'', 30, Some (palette ! 0)),
                 (''B'', 30, Some (palette ! 2))])"
proof -
  have ne: "[''C'', ''A'', ''B''] \<noteq> []" by simp
  from bar_sorted_pie_in_emission_order[OF prepared_ties ne]
  have pie: "create_academic_pie_chart [row_of ''A'' 40, row_of ''B'' 30, row_of ''C'' 30]
     [individual ''C'', individual ''A'', individual ''B''] =
     Inr (Drawn [(''C'', 30, Some (palette ! 0)), (''A'', 40, Some (palette ! 1)),
                 (''B'', 30, Some (palette ! 2))])"
    by (simp add: final_colors_def palette_def)
  have bar: "create_academic_bar_chart [row_of ''A'' 40, row_of ''B'' 30, row_of ''C'' 30]
     [individual ''C'', individual ''A'', individual ''B''] =
     Inr (Drawn [(''A'', 40, Some (palette ! 1)), (''C'', 30, Some (palette ! 0)),
                 (''B'', 30, Some (palette ! 2))])"
    by (simp add: create_academic_bar_chart_def prepared_ties final_colors_def palette_def
        sort_desc_def)
  from prepared_ties ne pie bar show ?thesis by blast
qed

text \<open>
  The counterexample to C4 as stated: three kernels displayed in the order \<open>C, A, B\<close> with
  the values \<open>30, 40, 30\<close> reach the pie chart in that order, which is not descending.
\<close>

theorem pie_chart_unsorted_counterexample:
  "create_academic_pie_chart [row_of ''A'' 40, row_of ''B'' 30, row_of ''C'' 30]
     [individual ''C'', individual ''A'', individual ''B''] =
     Inr (Drawn [(''C'', 30, Some (palette ! 0)), (''A'', 40, Some (palette ! 1)),
                 (''B'', 30, Some (palette ! 2))]) \<and>
   \<not> sorted_wrt (\<lambda>a b. fst (snd b) \<le> fst (snd a))
        [(''C'', 30 :: rat, Some (palette ! 0)), (''A'', 40, Some (palette ! 1)),
         (''B'', 30, Some (palette ! 2))]"
  by (simp add: create_academic_pie_chart_def prepared_ties final_colors_def palette_def)

section \<open>The default policy\<close>

text \<open>
  Claim C7. Without directives, and for a frame sorted by percentage (greatest first, as
  \<^verbatim>\<open>create_dataframe\<close> leaves it, lemma \<open>create_dataframe_sorted\<close>), the prepared data are
  the first eight rows as individual slots, and these are the top eight: no other row has a
  greater percentage than any of them. Exactly when the frame holds more than eight rows one
  last slot ``Others (n - 8)'' follows, whose value is the sum of the raw percentages of the
  other rows. So ten rows give nine slots, the ninth being ``Others (2)'' with the sum of
  the percentages of the ninth and the tenth row.
\<close>

theorem default_top8_and_others:
  assumes "sorted_wrt (\<lambda>a b. percentage b \<le> percentage a) df"
  shows "\<exists>ls ss cs. prepare_display_data df [] = Inr (ls, ss, cs) \<and>
     (\<forall>r\<in>set (drop 8 df). \<forall>t\<in>set (take 8 df). percentage r \<le> percentage t) \<and>
     (if 8 < length df
      then ls = map display_name (take 8 df) @ [''Others ('' @ str_nat (length df - 8) @ '')''] \<and>
           ss = map percentage (take 8 df) @ [sum_list (map percentage (drop 8 df))]
      else ls = map display_name df \<and> ss = map percentage df) \<and>
     cs = map Some (get_academic_colors (length ls)) \<and>
     (length df = 10 \<longrightarrow>
        length ls = 9 \<and> length ss = 9 \<and> ls ! 8 = ''Others (2)'' \<and>
        ss ! 8 = percentage (df ! 8) + percentage (df ! 9))"
proof -
  note top = sorted_take_drop[OF assms, of 8]
  have ten: "length df = 10 \<longrightarrow>
      (map percentage (take 8 df) @ [sum_list (map percentage (drop 8 df))]) ! 8
        = percentage (df ! 8) + percentage (df ! 9)"
    by (auto simp: nth_append drop_8_of_10)
  have ten_label: "length df = 10 \<longrightarrow>
      (map display_name (take 8 df) @ [''Others ('' @ str_nat (length df - 8) @ '')'']) ! 8
        = ''Others (2)''"
    by (auto simp: nth_append str_nat.simps)
  show ?thesis
  proof (cases "8 < length df")
    case True
    then show ?thesis
      using top ten ten_label
      by (simp add: prepare_display_data_def default_display_eq min_def)
  next
    case False
    then show ?thesis
      using top
      by (simp add: prepare_display_data_def default_display_eq min_def)
  qed
qed

theorem default_top8_and_others_witness:
  "sorted_wrt (\<lambda>a b. percentage b \<le> percentage a) ten_rows \<and>
   length ten_rows = 10 \<and>
   prepare_display_data ten_rows [] =
     Inr ([''K0'', ''K1'', ''K2'', ''K3'', ''K4'', ''K5'', ''K6'', ''K7'', ''Others (2)''],
          [30, 20, 10, 9, 8, 7, 6, 5, 5],
          map Some (take 9 palette)) \<and>
   percentage (ten_rows ! 8) + percentage (ten_rows ! 9) = 5"
proof -
  have srt: "sorted_wrt (\<lambda>a b. percentage b \<le> percentage a) ten_rows"
    by (simp add: ten_rows_def row_of_def)
  have len: "length ten_rows = 10" by (simp add: ten_rows_def)
  from default_top8_and_others[OF srt] len
  obtain ls ss cs where r: "prepare_display_data ten_rows [] = Inr (ls, ss, cs)"
    "ss ! 8 = percentage (ten_rows ! 8) + percentage (ten_rows ! 9)"
    by blast
  from r(1) have "ss = [30, 20, 10, 9, 8, 7, 6, 5, 5]"
    by (simp add: prepared_ten_rows)
  with r(2) have "percentage (ten_rows ! 8) + percentage (ten_rows ! 9) = 5" by simp
  with srt len prepared_ten_rows show ?thesis by blast
qed

section \<open>Lookup misses\<close>

text \<open>
  Claim C8. The selection loop has no failure at all (\<open>process_item\<close> and
  \<open>process_items\<close> return a state for every input), and a directive that names an unknown
  kernel changes nothing beyond itself. An individual directive whose kernel is the name of
  no row leaves the state as it is, so it contributes no slot, and the loop over a directive
  list that contains it ends in the same state as the loop over the list without it. A merged
  directive skips each of its names that is the name of no row; when at least one name is
  found it appends one slot whose value is the sum of the percentages of the rows found
  (label \<^verbatim>\<open>display_name\<close> or ``Merged (n)'' for \<open>n\<close> names found) and marks the names found
  as used; when none is found it leaves the state as it is.
\<close>

theorem lookup_miss_skipped:
  "(item_type it = Some ''individual'' \<and> (\<forall>k. kernel it = Some k \<longrightarrow> k \<notin> name ` set df) \<longrightarrow>
      process_item df it st = st \<and>
      process_items df (pre @ it # post) = process_items df (pre @ post)) \<and>
   (item_type it = Some ''merged'' \<longrightarrow>
      map name (List.map_filter (lookup_kernel df) (kernels it)) =
        filter (\<lambda>k. k \<in> name ` set df) (kernels it) \<and>
      process_item df it st =
        (if filter (\<lambda>k. k \<in> name ` set df) (kernels it) = [] then st
         else st\<lparr>labels := labels st @
                    [case item_display_name it of
                       None \<Rightarrow> ''Merged ('' @
                          str_nat (length (filter (\<lambda>k. k \<in> name ` set df) (kernels it))) @ '')''
                     | Some d \<Rightarrow> d],
                  sizes := sizes st @
                    [sum_list (map percentage (List.map_filter (lookup_kernel df) (kernels it)))],
                  colors := colors st @ [item_color it],
                  used_kernels := used_kernels st \<union>
                    set (filter (\<lambda>k. k \<in> name ` set df) (kernels it))\<rparr>))"
proof (intro conjI impI)
  assume a: "item_type it = Some ''individual'' \<and> (\<forall>k. kernel it = Some k \<longrightarrow> k \<notin> name ` set df)"
  then show "process_item df it st = st"
    by (simp add: process_item_individual_miss)
  from a have "\<And>s. process_item df it s = s"
    by (simp add: process_item_individual_miss)
  then show "process_items df (pre @ it # post) = process_items df (pre @ post)"
    by (simp add: process_items_def)
next
  show "map name (List.map_filter (lookup_kernel df) (kernels it)) =
        filter (\<lambda>k. k \<in> name ` set df) (kernels it)"
    by (rule found_rows_names)
next
  assume "item_type it = Some ''merged''"
  then show "process_item df it st =
        (if filter (\<lambda>k. k \<in> name ` set df) (kernels it) = [] then st
         else st\<lparr>labels := labels st @
                    [case item_display_name it of
                       None \<Rightarrow> ''Merged ('' @
                          str_nat (length (filter (\<lambda>k. k \<in> name ` set df) (kernels it))) @ '')''
                     | Some d \<Rightarrow> d],
                  sizes := sizes st @
                    [sum_list (map percentage (List.map_filter (lookup_kernel df) (kernels it)))],
                  colors := colors st @ [item_color it],
                  used_kernels := used_kernels st \<union>
                    set (filter (\<lambda>k. k \<in> name ` set df) (kernels it))\<rparr>)"
    by (rule process_item_merged)
qed

theorem lookup_miss_skipped_witness:
  "item_type (individual ''DoesNotExist'') = Some ''individual'' \<and>
   ''DoesNotExist'' \<notin> name ` set [row_of ''A'' 30, row_of ''B'' 20] \<and>
   process_item [row_of ''A'' 30, row_of ''B'' 20] (individual ''DoesNotExist'') init_state
     = init_state \<and>
   item_type (merged [''A'', ''Zed'', ''B'']) = Some ''merged'' \<and>
   process_item [row_of ''A'' 30, row_of ''B'' 20] (merged [''A'', ''Zed'', ''B'']) init_state
     = \<lparr>labels = [''Merged (2)''], sizes = [50], colors = [None],
        used_kernels = {''A'', ''B''}\<rparr>"
proof -
  let ?df = "[row_of ''A'' 30, row_of ''B'' 20]"
  have i1: "item_type (individual ''DoesNotExist'') = Some ''individual''"
    by (simp add: individual_def)
  have i2: "''DoesNotExist'' \<notin> name ` set ?df"
    by (simp add: row_of_def)
  have i3: "\<forall>k. kernel (individual ''DoesNotExist'') = Some k \<longrightarrow> k \<notin> name ` set ?df"
    using i2 by (simp add: individual_def)
  from lookup_miss_skipped[of "individual ''DoesNotExist''" ?df init_state "[]" "[]"] i1 i3
  have miss: "process_item ?df (individual ''DoesNotExist'') init_state = init_state"
    by blast
  have m1: "item_type (merged [''A'', ''Zed'', ''B'']) = Some ''merged''"
    by (simp add: merged_def)
  from lookup_miss_skipped[of "merged [''A'', ''Zed'', ''B'']" ?df init_state "[]" "[]"] m1
  have "process_item ?df (merged [''A'', ''Zed'', ''B'']) init_state =
        (if filter (\<lambda>k. k \<in> name ` set ?df) (kernels (merged [''A'', ''Zed'', ''B''])) = []
         then init_state
         else init_state\<lparr>labels := labels init_state @
                    [case item_display_name (merged [''A'', ''Zed'', ''B'']) of
                       None \<Rightarrow> ''Merged ('' @
                          str_nat (length (filter (\<lambda>k. k \<in> name ` set ?df)
                             (kernels (merged [''A'', ''Zed'', ''B''])))) @ '')''
                     | Some d \<Rightarrow> d],
                  sizes := sizes init_state @
                    [sum_list (map percentage (List.map_filter (lookup_kernel ?df)
                       (kernels (merged [''A'', ''Zed'', ''B'']))))],
                  colors := colors init_state @ [item_color (merged [''A'', ''Zed'', ''B''])],
                  used_kernels := used_kernels init_state \<union>
                    set (filter (\<lambda>k. k \<in> name ` set ?df)
                       (kernels (merged [''A'', ''Zed'', ''B''])))\<rparr>)"
    by blast
  then have mrg: "process_item ?df (merged [''A'', ''Zed'', ''B'']) init_state
     = \<lparr>labels = [''Merged (2)''], sizes = [50], colors = [None],
        used_kernels = {''A'', ''B''}\<rparr>"
    by (simp add: merged_def row_of_def init_state_def lookup_kernel_def
        List.map_filter_simps str_nat.simps)
  from i1 i2 miss m1 mrg show ?thesis by blast
qed

section \<open>Colour resolution\<close>

text \<open>
  Claim C9. For the state the selection loop ends in, colour resolution returns one colour
  for every slot and none of them is absent: at each position \<open>i\<close> the colour the directive
  gave, when it gave one, and otherwise entry \<open>i\<close> of the palette of ten colours when there
  are at most ten slots, or the 20-colour map sampled at \<open>i / n\<close> when there are \<open>n > 10\<close>
  slots. In either case \<open>i\<close> is the position of the slot, not a count of the slots that
  lack a colour. Whatever \<^verbatim>\<open>prepare_display_data\<close> returns, on either path, has as many
  colours as labels and no absent colour.
\<close>

theorem colors_resolved:
  "(\<exists>out. resolve_colors (process_items df its) = Inr out \<and>
      length out = length (labels (process_items df its)) \<and>
      (\<forall>i<length out. out ! i =
         Some (case colors (process_items df its) ! i of
                 Some c \<Rightarrow> c
               | None \<Rightarrow> if length out \<le> 10 then palette ! i
                         else Tab20 (of_nat i / of_nat (length out))))) \<and>
   (\<forall>ls ss cs. prepare_display_data df its = Inr (ls, ss, cs) \<longrightarrow>
      length cs = length ls \<and> None \<notin> set cs)"
proof (intro conjI allI impI)
  show "\<exists>out. resolve_colors (process_items df its) = Inr out \<and>
      length out = length (labels (process_items df its)) \<and>
      (\<forall>i<length out. out ! i =
         Some (case colors (process_items df its) ! i of
                 Some c \<Rightarrow> c
               | None \<Rightarrow> if length out \<le> 10 then palette ! i
                         else Tab20 (of_nat i / of_nat (length out))))"
    by (rule resolve_colors_ok)
next
  fix ls ss cs
  assume p: "prepare_display_data df its = Inr (ls, ss, cs)"
  have "length cs = length ls \<and> None \<notin> set cs"
  proof (cases "its = []")
    case True
    with p have d: "default_display df = (ls, ss, cs)"
      by (simp add: prepare_display_data_def)
    then have "cs = map Some (get_academic_colors (length ls))"
      by (auto simp: default_display_def Let_def split: if_splits)
    then show ?thesis by (auto simp: length_get_academic_colors)
  next
    case False
    obtain out where out: "resolve_colors (process_items df its) = Inr out"
      "length out = length (labels (process_items df its))"
      "\<forall>i<length out. \<exists>c. out ! i = Some c"
      using resolve_colors_ok[of df its] by blast
    from p False out(1) have "cs = out" "ls = labels (process_items df its)"
      by (auto simp: prepare_display_data_def Let_def split: sum.splits)
    moreover have "None \<notin> set out"
    proof
      assume "None \<in> set out"
      then obtain i where "i < length out" "out ! i = None"
        by (auto simp: in_set_conv_nth)
      with out(3) show False by auto
    qed
    ultimately show ?thesis using out(2) by simp
  qed
  then show "length cs = length ls" "None \<notin> set cs" by simp_all
qed

theorem colors_resolved_witness:
  "colors (process_items [row_of ''A'' 60, row_of ''B'' 40]
     [(individual ''A'')\<lparr>item_color := Some (Color_str ''#000000'')\<rparr>, individual ''B''])
     = [Some (Color_str ''#000000''), None] \<and>
   resolve_colors (process_items [row_of ''A'' 60, row_of ''B'' 40]
     [(individual ''A'')\<lparr>item_color := Some (Color_str ''#000000'')\<rparr>, individual ''B''])
     = Inr [Some (Color_str ''#000000''), Some (palette ! 1)] \<and>
   palette ! 1 = Color_str ''#F28E2B''"
proof -
  let ?st = "process_items [row_of ''A'' 60, row_of ''B'' 40]
     [(individual ''A'')\<lparr>item_color := Some (Color_str ''#000000'')\<rparr>, individual ''B'']"
  from colors_resolved[of "[row_of ''A'' 60, row_of ''B'' 40]"
     "[(individual ''A'')\<lparr>item_color := Some (Color_str ''#000000'')\<rparr>, individual ''B'']"]
  obtain out where out: "resolve_colors ?st = Inr out" "length out = length (labels ?st)"
    "\<forall>i<length out. out ! i =
         Some (case colors ?st ! i of
                 Some c \<Rightarrow> c
               | None \<Rightarrow> if length out \<le> 10 then palette ! i
                         else Tab20 (of_nat i / of_nat (length out)))"
    by blast
  have len: "length out = 2" using out(2) by (simp add: processed_colored)
  have o0: "out ! 0 = Some (Color_str ''#000000'')"
    using out(3) len by (simp add: processed_colored)
  have o1: "out ! 1 = Some (palette ! 1)"
    using out(3) len by (simp add: processed_colored)
  have "out = [Some (Color_str ''#000000''), Some (palette ! 1)]"
  proof (rule nth_equalityI)
    show "length out = length [Some (Color_str ''#000000''), Some (palette ! 1)]"
      using len by simp
  next
    fix i assume "i < length out"
    then have "i = 0 \<or> i = 1" using len by auto
    then show "out ! i = [Some (Color_str ''#000000''), Some (palette ! 1)] ! i"
      using o0 o1 by auto
  qed
  with out(1) have "resolve_colors ?st = Inr [Some (Color_str ''#000000''), Some (palette ! 1)]"
    by simp
  moreover have "colors ?st = [Some (Color_str ''#000000''), None]"
    by (simp add: processed_colored)
  moreover have "palette ! 1 = Color_str ''#F28E2B''"
    by (simp add: palette_def)
  ultimately show ?thesis by blast
qed

end
